theory Spec2Isabelle
  imports Complex_Main
begin

section \<open>FindMyFont: the ranking scoreboard and the font comparison\<close>

text \<open>
  The development follows \<^verbatim>\<open>FindMyFont.py\<close>. Python floats are idealised as
  \<^typ>\<open>real\<close> (no rounding, no NaN); every place where Python raises is a branch
  that yields an \<open>error\<close>.
\<close>

datatype error = IndexError | KeyError | ZeroDivisionError | TTLibError

subsection \<open>The scoreboard (\<^verbatim>\<open>ranking\<close>, \<^verbatim>\<open>addScore\<close>)\<close>

text \<open>
  A scoreboard is a Python list of two-element rows \<^verbatim>\<open>[score, url]\<close>. The rows of
  \<^verbatim>\<open>ranking\<close> are five distinct list objects and \<^verbatim>\<open>addScore\<close> copies rows field
  by field, so rows never share storage and a row is modelled as a pair. The score type is
  any linear order; \<^verbatim>\<open>addScore\<close> only compares scores with \<^verbatim>\<open><=\<close>.
\<close>

definition ranking :: "(real \<times> string) list" where
  "ranking = [(100, ''''), (100, ''''), (100, ''''), (100, ''''), (100, '''')]"

text \<open>\<^verbatim>\<open>array[j][0] = v\<close> and \<^verbatim>\<open>array[j][1] = v\<close> for an index in range.\<close>

definition set_score :: "('a \<times> 'b) list \<Rightarrow> nat \<Rightarrow> 'a \<Rightarrow> ('a \<times> 'b) list" where
  "set_score array j v = array[j := (v, snd (array ! j))]"

definition set_url :: "('a \<times> 'b) list \<Rightarrow> nat \<Rightarrow> 'b \<Rightarrow> ('a \<times> 'b) list" where
  "set_url array j v = array[j := (fst (array ! j), v)]"

text \<open>
  The \<^verbatim>\<open>for i in range(array.__len__())\<close> loop with its \<^verbatim>\<open>break\<close>. The argument
  \<open>k\<close> is the next value the range yields; the pair holds the variables \<open>i\<close> and \<open>j\<close>.
  Each iteration first assigns \<open>k\<close> to \<open>i\<close>; when the test succeeds \<open>j\<close> becomes
  \<open>len - 1\<close> and the loop is left.
\<close>

function scan :: "('a::linorder \<times> 'b) list \<Rightarrow> 'a \<Rightarrow> nat \<Rightarrow> nat \<times> nat \<Rightarrow> nat \<times> nat" where
  "scan array score k (i, j) =
     (if k < length array
      then (if score \<le> fst (array ! k) then (k, length array - 1)
            else scan array score (Suc k) (k, j))
      else (i, j))"
  by pat_completeness auto
termination
  by (relation "measure (\<lambda>(array, score, k, ij). length array - k)") auto

declare scan.simps [simp del]

text \<open>
  The \<^verbatim>\<open>while j > i\<close> loop. The result is the array as the loop leaves it, together
  with the exception that stopped it, if any: row \<open>j\<close> must exist for the two
  assignments (row \<open>j - 1\<close> then exists as well, and \<open>j - 1\<close> is not negative because
  \<open>j > i\<close>).
\<close>

function shift :: "('a \<times> 'b) list \<Rightarrow> nat \<Rightarrow> nat \<Rightarrow> ('a \<times> 'b) list \<times> error option" where
  "shift array i j =
     (if j > i
      then (if j < length array
            then shift (set_url (set_score array j (fst (array ! (j - 1)))) j
                          (snd (array ! (j - 1)))) i (j - 1)
            else (array, Some IndexError))
      else (array, None))"
  by pat_completeness auto
termination
  by (relation "measure (\<lambda>(array, i, j). j)") auto

declare shift.simps [simp del]

text \<open>
  \<^verbatim>\<open>addScore(array, score, url)\<close>: the scan, the shift, and the final guarded store.
  The final test reads \<^verbatim>\<open>array[i][0]\<close>, which raises \<^verbatim>\<open>IndexError\<close> when row \<open>i\<close>
  does not exist. The function mutates its argument and returns nothing, so the model
  returns the array after the call and the exception raised, if any.
\<close>

definition addScore ::
  "('a::linorder \<times> 'b) list \<Rightarrow> 'a \<Rightarrow> 'b \<Rightarrow> ('a \<times> 'b) list \<times> error option" where
  "addScore array score url =
     (case scan array score 0 (0, 0) of (i, j) \<Rightarrow>
        (case shift array i j of
           (array1, Some e) \<Rightarrow> (array1, Some e)
         | (array1, None) \<Rightarrow>
             if i < length array1
             then (if score \<le> fst (array1 ! i)
                   then (set_url (set_score array1 i score) i url, None)
                   else (array1, None))
             else (array1, Some IndexError)))"

text \<open>
  A client calling \<^verbatim>\<open>addScore\<close> on the same array once per \<open>(score, url)\<close> of a
  list, in order; an exception ends the sequence.
\<close>

fun addScores ::
  "('a::linorder \<times> 'b) list \<Rightarrow> ('a \<times> 'b) list \<Rightarrow> ('a \<times> 'b) list \<times> error option" where
  "addScores array [] = (array, None)"
| "addScores array ((score, url) # rest) =
     (case addScore array score url of
        (array1, None) \<Rightarrow> addScores array1 rest
      | (array1, Some e) \<Rightarrow> (array1, Some e))"

subsection \<open>Regions and the polygon library\<close>

text \<open>
  The glyph regions are \<^verbatim>\<open>shapely\<close> polygons. A region is modelled as the set of its
  points, and the library operations the program calls are the documented ones:
  \<^verbatim>\<open>a.union(b)\<close> and \<^verbatim>\<open>a.intersection(b)\<close> are the union and the intersection of
  the point sets, and \<^verbatim>\<open>affinity.scale(geom, xfact, yfact, origin=(x0, y0))\<close> maps each
  point \<open>(x, y)\<close> to \<open>(xfact * x + xoff, yfact * y + yoff)\<close> with
  \<open>xoff = x0 - x0 * xfact\<close> and \<open>yoff = y0 - y0 * yfact\<close>.
\<close>

type_synonym point = "real \<times> real"
type_synonym polygon = "point set"

definition poly_union :: "polygon \<Rightarrow> polygon \<Rightarrow> polygon" where
  "poly_union a b = a \<union> b"

definition poly_intersection :: "polygon \<Rightarrow> polygon \<Rightarrow> polygon" where
  "poly_intersection a b = a \<inter> b"

definition affinity_scale :: "polygon \<Rightarrow> real \<Rightarrow> real \<Rightarrow> point \<Rightarrow> polygon" where
  "affinity_scale geom xfact yfact origin =
     (case origin of (x0, y0) \<Rightarrow>
        (\<lambda>(x, y). (xfact * x + (x0 - x0 * xfact), yfact * y + (y0 - y0 * yfact))) ` geom)"

text \<open>
  What the program takes from its collaborators is a parameter of the model:
  \<^item> \<open>TTFont\<close>: \<^verbatim>\<open>TTFont(location, lazy=False)\<close>, which may raise;
  \<^item> \<open>to_polygons\<close>: the contours of one letter of a font, as lists of points: the glyph
    lookup \<^verbatim>\<open>font['glyf'][letter]\<close> (which raises \<^verbatim>\<open>KeyError\<close> for a missing glyph),
    the SVG pen, the path parser and \<^verbatim>\<open>to_polygons()\<close>;
  \<^item> \<open>Polygon\<close>: the region enclosed by one contour;
  \<^item> \<open>bounds\<close>: the tuple \<^verbatim>\<open>(minx, miny, maxx, maxy)\<close> of a region;
  \<^item> \<open>area\<close>: the area of a region.
\<close>

record 'font library =
  TTFont :: "string \<Rightarrow> error + 'font"
  to_polygons :: "'font \<Rightarrow> string \<Rightarrow> error + point list list"
  Polygon :: "point list \<Rightarrow> polygon"
  bounds :: "polygon \<Rightarrow> real \<times> real \<times> real \<times> real"
  area :: "polygon \<Rightarrow> real"

subsection \<open>\<^verbatim>\<open>ttfont2poly\<close> and \<^verbatim>\<open>getPolyFactor\<close>\<close>

text \<open>
  \<^verbatim>\<open>poly = Polygon(coords[0])\<close> raises \<^verbatim>\<open>IndexError\<close> for a glyph without contours;
  the loop then unions every contour, the first one included, into \<open>poly\<close>.
\<close>

definition ttfont2poly :: "'font library \<Rightarrow> 'font \<Rightarrow> string \<Rightarrow> error + polygon" where
  "ttfont2poly L font letter =
     (case to_polygons L font letter of
        Inl e \<Rightarrow> Inl e
      | Inr coords \<Rightarrow>
          (case coords of
             [] \<Rightarrow> Inl IndexError
           | c0 # _ \<Rightarrow>
               Inr (foldl (\<lambda>poly c. poly_union poly (Polygon L c)) (Polygon L c0) coords)))"

definition getPolyFactor :: "'font library \<Rightarrow> polygon \<Rightarrow> real \<times> real" where
  "getPolyFactor L poly =
     (case bounds L poly of (minx, miny, maxx, maxy) \<Rightarrow> (maxx - minx, maxy - miny))"

subsection \<open>\<^verbatim>\<open>match\<close>\<close>

text \<open>
  The body of the loop of \<^verbatim>\<open>match\<close> in three parts. First the scaling of the second
  polygon: the two calls of \<^verbatim>\<open>getPolyFactor\<close> and the call of \<^verbatim>\<open>affinity.scale\<close>,
  whose arguments \<^verbatim>\<open>x1/x2\<close> and \<^verbatim>\<open>y1/y2\<close> are float divisions and raise
  \<^verbatim>\<open>ZeroDivisionError\<close> for a zero divisor.
\<close>

definition scale_poly2 :: "'font library \<Rightarrow> polygon \<Rightarrow> polygon \<Rightarrow> error + polygon" where
  "scale_poly2 L poly1 poly2 =
     (case getPolyFactor L poly1 of (x1, y1) \<Rightarrow>
      case getPolyFactor L poly2 of (x2, y2) \<Rightarrow>
        if x2 = 0 then Inl ZeroDivisionError
        else if y2 = 0 then Inl ZeroDivisionError
        else Inr (affinity_scale poly2 (x1 / x2) (y1 / y2) (0, 0)))"

text \<open>
  Then the intersection, the union and the term added to \<open>total\<close>,
  \<^verbatim>\<open>(union.area - intersection.area)/union.area\<close>, again a float division.
\<close>

definition difference :: "'font library \<Rightarrow> polygon \<Rightarrow> polygon \<Rightarrow> error + real" where
  "difference L poly1 scaled =
     (let intersection = poly_intersection poly1 scaled;
          union = poly_union poly1 scaled
      in if area L union = 0 then Inl ZeroDivisionError
         else Inr ((area L union - area L intersection) / area L union))"

text \<open>The two parts together, for the polygons of one letter.\<close>

definition poly_difference :: "'font library \<Rightarrow> polygon \<Rightarrow> polygon \<Rightarrow> error + real" where
  "poly_difference L poly1 poly2 =
     (case scale_poly2 L poly1 poly2 of
        Inl e \<Rightarrow> Inl e
      | Inr scaled \<Rightarrow> difference L poly1 scaled)"

text \<open>The whole body for one letter \<open>i\<close>: the term it adds to \<open>total\<close>, or the exception.\<close>

definition letter_difference ::
  "'font library \<Rightarrow> 'font \<Rightarrow> 'font \<Rightarrow> string \<Rightarrow> error + real" where
  "letter_difference L font1 font2 i =
     (case ttfont2poly L font1 i of
        Inl e \<Rightarrow> Inl e
      | Inr poly1 \<Rightarrow>
          (case ttfont2poly L font2 i of
             Inl e \<Rightarrow> Inl e
           | Inr poly2 \<Rightarrow> poly_difference L poly1 poly2))"

text \<open>
  The loop \<^verbatim>\<open>for i in check_chars\<close> on the variables \<open>total\<close> and \<open>count\<close>; an
  exception in the body leaves the loop and \<^verbatim>\<open>match\<close>.
\<close>

fun match_loop ::
  "'font library \<Rightarrow> 'font \<Rightarrow> 'font \<Rightarrow> string list \<Rightarrow> real \<times> nat \<Rightarrow> error + real \<times> nat" where
  "match_loop L font1 font2 [] (total', count) = Inr (total', count)"
| "match_loop L font1 font2 (i # rest) (total', count) =
     (case letter_difference L font1 font2 i of
        Inl e \<Rightarrow> Inl e
      | Inr d \<Rightarrow> match_loop L font1 font2 rest (total' + d, count + 1))"

text \<open>
  \<^verbatim>\<open>match(check_chars, location1, location2)\<close>: both fonts are loaded, the loop runs
  from \<open>total = 0\<close> and \<open>count = 0\<close>, and \<^verbatim>\<open>total/count\<close> is returned; that division
  raises \<^verbatim>\<open>ZeroDivisionError\<close> when \<open>count\<close> is 0.
\<close>

definition match :: "'font library \<Rightarrow> string list \<Rightarrow> string \<Rightarrow> string \<Rightarrow> error + real" where
  "match L check_chars location1 location2 =
     (case TTFont L location1 of
        Inl e \<Rightarrow> Inl e
      | Inr font1 \<Rightarrow>
          (case TTFont L location2 of
             Inl e \<Rightarrow> Inl e
           | Inr font2 \<Rightarrow>
               (case match_loop L font1 font2 check_chars (0, 0) of
                  Inl e \<Rightarrow> Inl e
                | Inr (total', count) \<Rightarrow>
                    if count = 0 then Inl ZeroDivisionError else Inr (total' / real count))))"

subsection \<open>The two branches of the main program\<close>

text \<open>
  With \<^verbatim>\<open>local_font2\<close> set, the program prints \<^verbatim>\<open>Difference: {match(...):.2f}%\<close>, or
  the message of the \<^verbatim>\<open>except\<close> branch. \<open>Difference v\<close> stands for the first line,
  \<open>v\<close> being the number that is formatted in front of the percent sign.
\<close>

datatype printed = Difference real | Something_went_wrong

definition main_local :: "'font library \<Rightarrow> string list \<Rightarrow> string \<Rightarrow> string \<Rightarrow> printed" where
  "main_local L check_chars location1 location2 =
     (case match L check_chars location1 location2 of
        Inr v \<Rightarrow> Difference v
      | Inl e \<Rightarrow> Something_went_wrong)"

text \<open>
  Otherwise the program loops over the fonts of the catalogue; the list holds, for each,
  \<open>font_URL\<close> and the local file that \<^verbatim>\<open>urlretrieve\<close> stored it in. The body is
  \<^verbatim>\<open>score = match(...); addScore(ranking, score*100, font_URL)\<close> inside
  \<^verbatim>\<open>try\<close> with \<^verbatim>\<open>except: pass\<close>, so an exception of either call is dropped and the
  loop goes on with the scoreboard as it is.
\<close>

fun main_loop ::
  "'font library \<Rightarrow> string list \<Rightarrow> string \<Rightarrow> (real \<times> string) list \<Rightarrow>
   (string \<times> string) list \<Rightarrow> (real \<times> string) list" where
  "main_loop L check_chars location1 board [] = board"
| "main_loop L check_chars location1 board ((font_URL, location2) # rest) =
     (case match L check_chars location1 location2 of
        Inl e \<Rightarrow> main_loop L check_chars location1 board rest
      | Inr score \<Rightarrow>
          main_loop L check_chars location1
            (fst (addScore board (score * 100) font_URL)) rest)"

subsection \<open>A small library for the examples\<close>

text \<open>
  The examples use regions that are finite sets of lattice points. Their bounding box is
  the least and the greatest coordinate, and their area is the number of unit cells whose
  four corners all belong to the region. A font is a table from letters to contours, and a
  location is the name of the font.
\<close>

definition lattice_bounds :: "polygon \<Rightarrow> real \<times> real \<times> real \<times> real" where
  "lattice_bounds S = (Min (fst ` S), Min (snd ` S), Max (fst ` S), Max (snd ` S))"

definition lattice_area :: "polygon \<Rightarrow> real" where
  "lattice_area S =
     real (card {p \<in> S. (fst p + 1, snd p) \<in> S \<and> (fst p, snd p + 1) \<in> S \<and>
                          (fst p + 1, snd p + 1) \<in> S})"

definition lattice_library ::
  "(string \<Rightarrow> (string \<times> point list list) list) \<Rightarrow> (string \<times> point list list) list library" where
  "lattice_library fonts =
     \<lparr>TTFont = (\<lambda>location. Inr (fonts location)),
      to_polygons = (\<lambda>font letter.
         case map_of font letter of None \<Rightarrow> Inl KeyError | Some coords \<Rightarrow> Inr coords),
      Polygon = set,
      bounds = lattice_bounds,
      area = lattice_area\<rparr>"

definition wide_box :: "point list" where
  "wide_box = [(0, 0), (1, 0), (2, 0), (0, 1), (1, 1), (2, 1)]"

definition wide_box_cut :: "point list" where
  "wide_box_cut = [(0, 0), (1, 0), (2, 0), (0, 1), (1, 1)]"

definition diagonal :: "point list" where
  "diagonal = [(0, 0), (1, 1), (2, 2)]"

definition upright :: "point list" where
  "upright = [(0, 0), (0, 1)]"

definition demo_fonts :: "string \<Rightarrow> (string \<times> point list list) list" where
  "demo_fonts location =
     (if location = ''one'' then [(''A'', [wide_box])]
      else if location = ''two'' then [(''A'', [wide_box_cut])]
      else if location = ''thin'' then [(''A'', [upright])]
      else if location = ''diag'' then [(''B'', [wide_box]), (''A'', [diagonal])]
      else [])"

section \<open>Lemmas\<close>

subsection \<open>Facts about the two loops\<close>

lemma length_set_score [simp]: "length (set_score array j v) = length array"
  by (simp add: set_score_def)

lemma length_set_url [simp]: "length (set_url array j v) = length array"
  by (simp add: set_url_def)

lemma scan_past_end: "length array \<le> k \<Longrightarrow> scan array score k (i, j) = (i, j)"
  by (simp add: scan.simps)

lemma scan_result:
  "k \<le> length array \<Longrightarrow>
   scan array score k (i, j) =
     (let m = length (takeWhile (\<lambda>e. \<not> score \<le> fst e) (drop k array))
      in if k + m < length array then (k + m, length array - 1)
         else (if k < length array then length array - 1 else i, j))"
proof (induction array score k "(i, j)" arbitrary: i j rule: scan.induct)
  case (1 array score k i j)
  show ?case
  proof (cases "k < length array")
    case False
    then show ?thesis using "1.prems" by (simp add: scan.simps)
  next
    case True
    then have d: "drop k array = array ! k # drop (Suc k) array"
      by (simp add: Cons_nth_drop_Suc)
    show ?thesis
    proof (cases "score \<le> fst (array ! k)")
      case True
      then show ?thesis using \<open>k < length array\<close> d by (simp add: scan.simps)
    next
      case False
      have "scan array score k (i, j) = scan array score (Suc k) (k, j)"
        using False \<open>k < length array\<close> by (simp add: scan.simps)
      also have "\<dots> =
        (let m = length (takeWhile (\<lambda>e. \<not> score \<le> fst e) (drop (Suc k) array))
         in if Suc k + m < length array then (Suc k + m, length array - 1)
            else (if Suc k < length array then length array - 1 else k, j))"
        using "1.hyps" [OF \<open>k < length array\<close> False] \<open>k < length array\<close> by simp
      finally show ?thesis
        using False \<open>k < length array\<close> d by (auto simp: Let_def)
    qed
  qed
qed

lemma copy_row:
  "j < length array \<Longrightarrow>
   set_url (set_score array j (fst (array ! k))) j (snd (array ! k)) = array[j := array ! k]"
  by (simp add: set_url_def set_score_def)

lemma shift_result:
  "j < length array \<Longrightarrow>
   shift array i j =
     (if i \<le> j then take (Suc i) array @ take (j - i) (drop i array) @ drop (Suc j) array
      else array, None)"
proof (induction array i j rule: shift.induct)
  case (1 array i j)
  show ?case
  proof (cases "i < j")
    case False
    then show ?thesis
      by (cases "i = j") (simp_all add: shift.simps)
  next
    case True
    define a where "a = array[j := array ! (j - 1)]"
    have a: "set_url (set_score array j (fst (array ! (j - 1)))) j (snd (array ! (j - 1))) = a"
      unfolding a_def using "1.prems" by (rule copy_row)
    have la: "length a = length array" by (simp add: a_def)
    have "shift array i j = shift a i (j - 1)"
      using True "1.prems" a by (subst shift.simps) simp
    also have "\<dots> = (take (Suc i) a @ take (j - 1 - i) (drop i a) @ drop j a, None)"
    proof -
      have "j - 1 < length a" using "1.prems" la by simp
      then have "j - 1 < length (set_url (set_score array j (fst (array ! (j - 1)))) j
                   (snd (array ! (j - 1))))"
        by (simp only: a)
      from "1.IH" [OF True "1.prems" this] show ?thesis
        using True by (simp only: a) simp
    qed
    also have "take (Suc i) a @ take (j - 1 - i) (drop i a) @ drop j a =
               take (Suc i) array @ take (j - i) (drop i array) @ drop (Suc j) array"
    proof (rule nth_equalityI)
      show "length (take (Suc i) a @ take (j - 1 - i) (drop i a) @ drop j a) =
            length (take (Suc i) array @ take (j - i) (drop i array) @ drop (Suc j) array)"
        using True "1.prems" by (simp add: la)
    next
      fix n
      assume "n < length (take (Suc i) a @ take (j - 1 - i) (drop i a) @ drop j a)"
      then have n: "n < length array" using True "1.prems" by (simp add: la)
      show "(take (Suc i) a @ take (j - 1 - i) (drop i a) @ drop j a) ! n =
            (take (Suc i) array @ take (j - i) (drop i array) @ drop (Suc j) array) ! n"
      proof (cases "n = j")
        case True
        moreover have "j - Suc i < j - i" using \<open>i < j\<close> by arith
        ultimately show ?thesis using \<open>i < j\<close> "1.prems"
          by (simp add: a_def nth_append)
      next
        case False
        with \<open>i < j\<close> "1.prems" n show ?thesis
          by (auto simp: a_def nth_append nth_list_update)
      qed
    qed
    finally show ?thesis using True by simp
  qed
qed

subsection \<open>What one call of \<^verbatim>\<open>addScore\<close> does\<close>

lemma scan_from_start:
  "scan array score 0 (0, 0) =
     (let m = length (takeWhile (\<lambda>e. \<not> score \<le> fst e) array)
      in if m < length array then (m, length array - 1) else (length array - 1, 0))"
  using scan_result [of 0 array score 0 0] by (auto simp: Let_def)

lemma store_row:
  "i < length array \<Longrightarrow> set_url (set_score array i score) i url = array[i := (score, url)]"
  by (simp add: set_url_def set_score_def)

lemma addScore_eq:
  "addScore array score url =
     (if array = [] then ([], Some IndexError)
      else if dropWhile (\<lambda>e. \<not> score \<le> fst e) array = [] then (array, None)
      else (takeWhile (\<lambda>e. \<not> score \<le> fst e) array @
              (score, url) # butlast (dropWhile (\<lambda>e. \<not> score \<le> fst e) array), None))"
proof -
  define P where "P = (\<lambda>e::'a \<times> 'b. \<not> score \<le> fst e)"
  define m where "m = length (takeWhile P array)"
  have tw: "takeWhile P array = take m array"
    unfolding m_def by (rule takeWhile_eq_take)
  have dw: "dropWhile P array = drop m array"
    unfolding m_def by (rule dropWhile_eq_drop)
  have m_le: "m \<le> length array"
    unfolding m_def by (rule length_takeWhile_le)
  consider (empty) "array = []"
    | (worse) "array \<noteq> []" "m = length array"
    | (found) "array \<noteq> []" "m < length array"
    using m_le by fastforce
  then have "addScore array score url =
     (if array = [] then ([], Some IndexError)
      else if dropWhile P array = [] then (array, None)
      else (takeWhile P array @ (score, url) # butlast (dropWhile P array), None))"
  proof cases
    case empty
    then show ?thesis
      by (simp add: addScore_def scan.simps shift.simps)
  next
    case worse
    define l where "l = length array - 1"
    have l: "l < length array"
      using worse(1) by (simp add: l_def)
    have sc: "scan array score 0 (0, 0) = (l, 0)"
      using worse by (simp add: scan_from_start P_def [symmetric] m_def [symmetric] l_def)
    have sh: "shift array l 0 = (array, None)"
      using worse(1) by (cases array) (simp_all add: shift_result)
    have "P (array ! l)"
    proof -
      have "array ! l \<in> set (takeWhile P array)"
        using worse l by (simp add: tw)
      then show ?thesis by (rule set_takeWhileD [THEN conjunct2])
    qed
    then have "\<not> score \<le> fst (array ! l)"
      by (simp add: P_def)
    then show ?thesis
      using worse l by (simp add: addScore_def sc sh dw)
  next
    case found
    define l where "l = length array - 1"
    have l: "l < length array" "m \<le> l" "Suc l = length array"
      using found by (simp_all add: l_def)
    have sc: "scan array score 0 (0, 0) = (m, l)"
      using found by (simp add: scan_from_start P_def [symmetric] m_def [symmetric] l_def)
    define a1 where
      "a1 = take (Suc m) array @ take (l - m) (drop m array) @ drop (Suc l) array"
    have sh: "shift array m l = (a1, None)"
      using l by (simp add: shift_result a1_def)
    have la1: "length a1 = length array"
      using l by (simp add: a1_def)
    have a1m: "a1 ! m = array ! m"
      using found by (simp add: a1_def nth_append)
    have "\<not> P (array ! m)"
      using found(2) unfolding m_def by (rule nth_length_takeWhile)
    then have le: "score \<le> fst (array ! m)"
      by (simp add: P_def)
    have "a1[m := (score, url)] =
          take m array @ (score, url) # take (l - m) (drop m array)"
      using found l by (simp add: a1_def list_update_append take_Suc_conv_app_nth)
    also have "take (l - m) (drop m array) = butlast (drop m array)"
      by (simp add: butlast_conv_take l_def)
    finally have st: "a1[m := (score, url)] =
          takeWhile P array @ (score, url) # butlast (dropWhile P array)"
      by (simp add: tw dw)
    have "addScore array score url = (a1[m := (score, url)], None)"
      using found le by (simp add: addScore_def sc sh la1 a1m store_row)
    then show ?thesis
      using found by (simp add: st dw)
  qed
  then show ?thesis by (simp add: P_def)
qed

lemma addScore_length: "length (fst (addScore array score url)) = length array"
proof -
  have "length (takeWhile (\<lambda>e. \<not> score \<le> fst e) array) +
        length (dropWhile (\<lambda>e. \<not> score \<le> fst e) array) = length array"
    by (metis length_append takeWhile_dropWhile_id)
  then show ?thesis
    by (auto simp: addScore_eq)
qed

lemma addScore_no_error: "array \<noteq> [] \<Longrightarrow> snd (addScore array score url) = None"
  by (simp add: addScore_eq)

lemma addScore_sorted:
  assumes "sorted (map fst array)"
  shows "sorted (map fst (fst (addScore array score url)))"
proof -
  define P where "P = (\<lambda>e::'a \<times> 'b. \<not> score \<le> fst e)"
  define tw where "tw = takeWhile P array"
  define dw where "dw = dropWhile P array"
  have split: "array = tw @ dw"
    by (simp add: tw_def dw_def)
  have s: "sorted (map fst tw)" "sorted (map fst dw)"
    using assms unfolding split by (simp_all add: sorted_append)
  have below: "fst x \<le> score" if "x \<in> set tw" for x
  proof -
    from that have "P x" unfolding tw_def by (rule set_takeWhileD [THEN conjunct2])
    then show ?thesis by (simp add: P_def)
  qed
  have above: "score \<le> fst y" if "dw \<noteq> []" "y \<in> set (butlast dw)" for y
  proof -
    have "\<not> P (hd dw)"
      using that(1) unfolding dw_def by (rule hd_dropWhile)
    then have h: "score \<le> fst (hd dw)" by (simp add: P_def)
    from that(2) have "y \<in> set dw" by (rule in_set_butlastD)
    with s(2) that(1) have "fst (hd dw) \<le> fst y"
      by (cases dw) auto
    with h show ?thesis by simp
  qed
  have sb: "sorted (map fst (butlast dw))"
    using s(2) by (simp add: map_butlast sorted_butlast)
  have "sorted (map fst (tw @ (score, url) # butlast dw))" if "dw \<noteq> []"
  proof -
    have "fst x \<le> fst y" if "x \<in> set tw" "y \<in> set (butlast dw)" for x y
      using below [OF that(1)] above [OF \<open>dw \<noteq> []\<close> that(2)] by (rule order_trans)
    then show ?thesis
      using s(1) sb below above [OF that] by (auto simp: sorted_append)
  qed
  then show ?thesis
    using assms by (simp add: addScore_eq P_def [symmetric] tw_def [symmetric] dw_def [symmetric])
qed

lemma addScores_length: "length (fst (addScores array ops)) = length array"
proof (induction ops arbitrary: array)
  case Nil
  show ?case by simp
next
  case (Cons p ops)
  obtain score url where p: "p = (score, url)" by (cases p)
  obtain array1 e where r: "addScore array score url = (array1, e)"
    by (cases "addScore array score url")
  have "length array1 = length array"
    using addScore_length [of array score url] r by simp
  with Cons.IH [of array1] show ?case
    by (cases e) (simp_all add: p r)
qed

lemma addScores_sorted:
  "sorted (map fst array) \<Longrightarrow> sorted (map fst (fst (addScores array ops)))"
proof (induction ops arbitrary: array)
  case Nil
  then show ?case by simp
next
  case (Cons p ops)
  obtain score url where p: "p = (score, url)" by (cases p)
  obtain array1 e where r: "addScore array score url = (array1, e)"
    by (cases "addScore array score url")
  have "sorted (map fst array1)"
    using addScore_sorted [OF Cons.prems, of score url] r by simp
  with Cons.IH [of array1] show ?case
    by (cases e) (simp_all add: p r)
qed

lemma addScores_no_error: "array \<noteq> [] \<Longrightarrow> snd (addScores array ops) = None"
proof (induction ops arbitrary: array)
  case Nil
  show ?case by simp
next
  case (Cons p ops)
  obtain score url where p: "p = (score, url)" by (cases p)
  obtain array1 e where r: "addScore array score url = (array1, e)"
    by (cases "addScore array score url")
  have e: "e = None"
    using addScore_no_error [OF Cons.prems, of score url] r by simp
  have "array1 \<noteq> []"
    using addScore_length [of array score url] r Cons.prems by auto
  with Cons.IH [of array1] show ?case
    by (simp add: p r e)
qed

subsection \<open>Facts about the comparison\<close>

lemma affinity_scale_origin:
  "affinity_scale geom xfact yfact (0, 0) = (\<lambda>(x, y). (x * xfact, y * yfact)) ` geom"
  by (simp add: affinity_scale_def mult.commute)

lemma affinity_scale_identity: "affinity_scale geom 1 1 (0, 0) = geom"
  by (simp add: affinity_scale_def)

lemma ttfont2poly_no_contours:
  "to_polygons L font letter = Inr [] \<Longrightarrow> ttfont2poly L font letter = Inl IndexError"
  by (simp add: ttfont2poly_def)

lemma letter_difference_no_contours:
  "to_polygons L font1 i = Inr [] \<Longrightarrow> letter_difference L font1 font2 i = Inl IndexError"
  by (simp add: letter_difference_def ttfont2poly_no_contours)

lemma match_loop_totals:
  "\<forall>i\<in>set check_chars. letter_difference L font1 font2 i = Inr (d i) \<Longrightarrow>
   match_loop L font1 font2 check_chars (t, c) =
     Inr (t + sum_list (map d check_chars), c + length check_chars)"
  by (induction check_chars arbitrary: t c) (simp_all add: add.assoc)

lemma match_mean:
  assumes "TTFont L location1 = Inr font1" and "TTFont L location2 = Inr font2"
    and "check_chars \<noteq> []"
    and "\<forall>i\<in>set check_chars. letter_difference L font1 font2 i = Inr (d i)"
  shows "match L check_chars location1 location2 =
           Inr (sum_list (map d check_chars) / real (length check_chars))"
  using assms(1-3) by (simp add: match_def match_loop_totals [OF assms(4)])

lemma match_loop_fails:
  "i \<in> set check_chars \<Longrightarrow> letter_difference L font1 font2 i = Inl e \<Longrightarrow>
   \<exists>e'. match_loop L font1 font2 check_chars (t, c) = Inl e'"
proof (induction check_chars arbitrary: t c)
  case Nil
  then show ?case by simp
next
  case (Cons a check_chars)
  show ?case
  proof (cases "letter_difference L font1 font2 a")
    case (Inl e1)
    then show ?thesis by simp
  next
    case (Inr d)
    with Cons.prems have "i \<in> set check_chars" by auto
    from Cons.IH [OF this Cons.prems(2)] Inr show ?thesis by simp
  qed
qed

lemma match_fails:
  assumes "TTFont L location1 = Inr font1" and "TTFont L location2 = Inr font2"
    and "i \<in> set check_chars" and "letter_difference L font1 font2 i = Inl e"
  shows "\<exists>e'. match L check_chars location1 location2 = Inl e'"
proof -
  obtain e' where "match_loop L font1 font2 check_chars (0, 0) = Inl e'"
    using match_loop_fails [OF assms(3,4)] by blast
  then show ?thesis using assms(1,2) by (simp add: match_def)
qed

lemma match_loop_first_failure:
  "\<forall>c\<in>set before. \<exists>d. letter_difference L font1 font2 c = Inr d \<Longrightarrow>
   letter_difference L font1 font2 i = Inl e \<Longrightarrow>
   match_loop L font1 font2 (before @ i # after) (t, n) = Inl e"
proof (induction before arbitrary: t n)
  case Nil
  then show ?case by simp
next
  case (Cons a before)
  from Cons.prems(1) obtain d where d: "letter_difference L font1 font2 a = Inr d"
    by auto
  from Cons.prems(1) have "\<forall>c\<in>set before. \<exists>d. letter_difference L font1 font2 c = Inr d"
    by simp
  from Cons.IH [OF this Cons.prems(2)] d show ?case
    by simp
qed

lemma failing_letter_fails_candidate:
  assumes "TTFont L location1 = Inr font1" and "TTFont L location2 = Inr font2"
    and "check_chars = before @ i # after"
    and "letter_difference L font1 font2 i = Inl e"
  shows "\<exists>e'. match L check_chars location1 location2 = Inl e'"
    and "(\<forall>c\<in>set before. \<exists>d. letter_difference L font1 font2 c = Inr d) \<longrightarrow>
         match L check_chars location1 location2 = Inl e"
    and "main_local L check_chars location1 location2 = Something_went_wrong"
    and "main_loop L check_chars location1 board ((font_URL, location2) # rest) =
         main_loop L check_chars location1 board rest"
proof -
  have "i \<in> set check_chars"
    using assms(3) by simp
  from match_fails [OF assms(1,2) this assms(4)]
  obtain e' where e': "match L check_chars location1 location2 = Inl e'"
    by blast
  then show "\<exists>e'. match L check_chars location1 location2 = Inl e'"
    by blast
  from e' show "main_local L check_chars location1 location2 = Something_went_wrong"
    by (simp add: main_local_def)
  from e' show "main_loop L check_chars location1 board ((font_URL, location2) # rest) =
         main_loop L check_chars location1 board rest"
    by simp
  show "(\<forall>c\<in>set before. \<exists>d. letter_difference L font1 font2 c = Inr d) \<longrightarrow>
         match L check_chars location1 location2 = Inl e"
  proof
    assume "\<forall>c\<in>set before. \<exists>d. letter_difference L font1 font2 c = Inr d"
    from match_loop_first_failure [OF this assms(4)]
    have "match_loop L font1 font2 check_chars (0, 0) = Inl e"
      by (simp add: assms(3))
    then show "match L check_chars location1 location2 = Inl e"
      using assms(1,2) by (simp add: match_def)
  qed
qed

lemma main_loop_skips_failure:
  "match L check_chars location1 location2 = Inl e \<Longrightarrow>
   main_loop L check_chars location1 board ((font_URL, location2) # rest) =
     main_loop L check_chars location1 board rest"
  by simp

lemma main_loop_stores_percentage:
  "match L check_chars location1 location2 = Inr score \<Longrightarrow>
   main_loop L check_chars location1 board [(font_URL, location2)] =
     fst (addScore board (score * 100) font_URL)"
  by simp

section \<open>The scoreboard claims\<close>

text \<open>
  Claim C1. \<^verbatim>\<open>addScore\<close> finds the first index \<open>i\<close>, in ascending order, whose stored
  score is not below the new score (so a new score equal to a stored one goes in front of
  it); the rows \<open>i\<close> to \<open>K - 2\<close> move one place towards the tail, the last row is lost,
  and the new \<open>(score, url)\<close> is stored at \<open>i\<close>. Starting from the five sentinel rows of
  \<^verbatim>\<open>ranking\<close>, the inserts (10,a), (50,b), (5,c), (90,d), (3,e), (4,f) leave
  (3,e), (4,f), (5,c), (10,a), (50,b).
\<close>

theorem addScore_inserts_at_first_not_better:
  "(i < length array \<and> score \<le> fst (array ! i) \<and> (\<forall>k<i. \<not> score \<le> fst (array ! k)) \<longrightarrow>
      addScore array score url =
        (take i array @ (score, url) # take (length array - 1 - i) (drop i array), None)) \<and>
   addScores ranking
     [(10, ''a''), (50, ''b''), (5, ''c''), (90, ''d''), (3, ''e''), (4, ''f'')] =
     ([(3, ''e''), (4, ''f''), (5, ''c''), (10, ''a''), (50, ''b'')], None)"
proof (intro conjI impI)
  assume h: "i < length array \<and> score \<le> fst (array ! i) \<and>
             (\<forall>k<i. \<not> score \<le> fst (array ! k))"
  define P where "P = (\<lambda>e::'a \<times> 'b. \<not> score \<le> fst e)"
  have tw: "takeWhile P array = take i array"
    by (rule takeWhile_eq_take_P_nth) (use h in \<open>simp_all add: P_def\<close>)
  then have len: "length (takeWhile P array) = i"
    using h by simp
  have dw: "dropWhile P array = drop i array"
    using dropWhile_eq_drop [of P array] by (simp only: len)
  have ne: "array \<noteq> []" "drop i array \<noteq> []"
    using h by auto
  have "butlast (drop i array) = take (length array - 1 - i) (drop i array)"
    by (simp add: butlast_conv_take)
  with ne show "addScore array score url =
      (take i array @ (score, url) # take (length array - 1 - i) (drop i array), None)"
    by (simp add: addScore_eq P_def [symmetric] tw dw)
next
  show "addScores ranking
     [(10, ''a''), (50, ''b''), (5, ''c''), (90, ''d''), (3, ''e''), (4, ''f'')] =
     ([(3, ''e''), (4, ''f''), (5, ''c''), (10, ''a''), (50, ''b'')], None)"
    by (simp add: ranking_def addScore_def scan.simps shift.simps set_score_def set_url_def)
qed

theorem addScore_inserts_at_first_not_better_witness:
  "(1::nat) < length [(1::int, ''a''), (3, ''b''), (3, ''c''), (7, ''d'')] \<and>
   (3::int) \<le> fst ([(1::int, ''a''), (3, ''b''), (3, ''c''), (7, ''d'')] ! 1) \<and>
   \<not> (3::int) \<le> fst ([(1::int, ''a''), (3, ''b''), (3, ''c''), (7, ''d'')] ! 0) \<and>
   addScore [(1::int, ''a''), (3, ''b''), (3, ''c''), (7, ''d'')] 3 ''n'' =
     ([(1, ''a''), (3, ''n''), (3, ''b''), (3, ''c'')], None)"
  using addScore_inserts_at_first_not_better
    [of 1 "[(1::int, ''a''), (3, ''b''), (3, ''c''), (7, ''d'')]" 3 "''n''"]
  by simp

text \<open>
  Claim C2. A scoreboard that is sorted ascending by score is still sorted ascending by
  score after every sequence of inserts, and so after every prefix of the sequence.
\<close>

theorem addScores_keeps_sorted:
  "sorted (map fst array) \<Longrightarrow> sorted (map fst (fst (addScores array (take n ops))))"
  by (rule addScores_sorted)

theorem addScores_keeps_sorted_witness:
  "sorted (map fst [(1::int, ''a''), (3, ''b''), (7, ''c'')]) \<and>
   sorted (map fst (fst (addScores [(1::int, ''a''), (3, ''b''), (7, ''c'')]
                           (take 2 [(5, ''x''), (2, ''y''), (9, ''z'')]))))"
  using addScores_keeps_sorted
    [of "[(1::int, ''a''), (3, ''b''), (7, ''c'')]" 2 "[(5, ''x''), (2, ''y''), (9, ''z'')]"]
  by simp

text \<open>
  Claim C3. The scoreboard keeps its size: after any number of inserts it has as many rows
  as before, and \<^verbatim>\<open>ranking\<close> starts with five.
\<close>

theorem addScores_keeps_size:
  "length (fst (addScores array ops)) = length array \<and> length ranking = 5"
  by (simp add: addScores_length ranking_def)

text \<open>
  Claim C4. When the new score is strictly greater than every stored score, the call
  changes nothing: every row keeps its score and its url.
\<close>

theorem addScore_worse_than_all_unchanged:
  "\<forall>e\<in>set array. fst e < score \<Longrightarrow> fst (addScore array score url) = array"
proof -
  assume "\<forall>e\<in>set array. fst e < score"
  then have "\<forall>e\<in>set array. \<not> score \<le> fst e"
    by auto
  then have "dropWhile (\<lambda>e. \<not> score \<le> fst e) array = []"
    by simp
  then show ?thesis
    by (simp add: addScore_eq)
qed

theorem addScore_worse_than_all_unchanged_witness:
  "list_all (\<lambda>e. fst e < 8) [(1::int, ''a''), (3, ''b''), (7, ''c'')] \<and>
   fst (addScore [(1::int, ''a''), (3, ''b''), (7, ''c'')] 8 ''n'') =
     [(1, ''a''), (3, ''b''), (7, ''c'')]"
  using addScore_worse_than_all_unchanged [of "[(1::int, ''a''), (3, ''b''), (7, ''c'')]" 8 "''n''"]
  by simp

section \<open>The comparison claims\<close>

text \<open>
  Claim C5, as the program has it. The claim says that a letter whose union has area 0
  scores 0. The program divides by \<^verbatim>\<open>union.area\<close> without a test: when that area is 0
  the division raises \<^verbatim>\<open>ZeroDivisionError\<close>, the letter gets no term, and
  \<^verbatim>\<open>match\<close> returns no number for the candidate. The error that leaves \<^verbatim>\<open>match\<close>
  is this \<^verbatim>\<open>ZeroDivisionError\<close> when every earlier letter of \<open>check_chars\<close> got its
  term. The branch for two local fonts then prints its error message, and the catalogue
  loop goes on to the next font with the scoreboard as it was.
\<close>

theorem zero_union_area_fails_candidate:
  assumes "TTFont L location1 = Inr font1" and "TTFont L location2 = Inr font2"
    and "check_chars = before @ i # after"
    and "ttfont2poly L font1 i = Inr poly1" and "ttfont2poly L font2 i = Inr poly2"
    and "scale_poly2 L poly1 poly2 = Inr scaled"
    and "area L (poly_union poly1 scaled) = 0"
  shows "difference L poly1 scaled = Inl ZeroDivisionError \<and>
         letter_difference L font1 font2 i = Inl ZeroDivisionError \<and>
         (\<exists>e. match L check_chars location1 location2 = Inl e) \<and>
         ((\<forall>c\<in>set before. \<exists>d. letter_difference L font1 font2 c = Inr d) \<longrightarrow>
            match L check_chars location1 location2 = Inl ZeroDivisionError) \<and>
         main_local L check_chars location1 location2 = Something_went_wrong \<and>
         main_loop L check_chars location1 board ((font_URL, location2) # rest) =
           main_loop L check_chars location1 board rest"
proof -
  have d: "difference L poly1 scaled = Inl ZeroDivisionError"
    using assms(7) by (simp add: difference_def)
  then have l: "letter_difference L font1 font2 i = Inl ZeroDivisionError"
    using assms(4-6) by (simp add: letter_difference_def poly_difference_def)
  from d l failing_letter_fails_candidate [OF assms(1-3) l] show ?thesis
    by blast
qed

theorem zero_union_area_fails_candidate_witness:
  "ttfont2poly (lattice_library demo_fonts) (demo_fonts ''diag'') ''A'' = Inr (set diagonal) \<and>
   scale_poly2 (lattice_library demo_fonts) (set diagonal) (set diagonal) = Inr (set diagonal) \<and>
   area (lattice_library demo_fonts) (poly_union (set diagonal) (set diagonal)) = 0 \<and>
   letter_difference (lattice_library demo_fonts) (demo_fonts ''diag'') (demo_fonts ''diag'') ''B'' =
     Inr 0 \<and>
   difference (lattice_library demo_fonts) (set diagonal) (set diagonal) = Inl ZeroDivisionError \<and>
   letter_difference (lattice_library demo_fonts) (demo_fonts ''diag'') (demo_fonts ''diag'') ''A'' =
     Inl ZeroDivisionError \<and>
   match (lattice_library demo_fonts) [''B'', ''A''] ''diag'' ''diag'' = Inl ZeroDivisionError \<and>
   main_local (lattice_library demo_fonts) [''B'', ''A''] ''diag'' ''diag'' = Something_went_wrong \<and>
   main_loop (lattice_library demo_fonts) [''B'', ''A''] ''diag'' ranking
     [(''diag.ttf'', ''diag''), (''two.ttf'', ''two'')] =
   main_loop (lattice_library demo_fonts) [''B'', ''A''] ''diag'' ranking [(''two.ttf'', ''two'')]"
proof -
  have t: "TTFont (lattice_library demo_fonts) ''diag'' = Inr (demo_fonts ''diag'')"
    by (simp add: lattice_library_def)
  have c: "[''B'', ''A''] = [''B''] @ ''A'' # []"
    by simp
  have p: "ttfont2poly (lattice_library demo_fonts) (demo_fonts ''diag'') ''A'' =
             Inr (set diagonal)"
    by code_simp
  have s: "scale_poly2 (lattice_library demo_fonts) (set diagonal) (set diagonal) =
             Inr (set diagonal)"
    by code_simp
  have a: "area (lattice_library demo_fonts) (poly_union (set diagonal) (set diagonal)) = 0"
    by code_simp
  have b: "letter_difference (lattice_library demo_fonts) (demo_fonts ''diag'')
             (demo_fonts ''diag'') ''B'' = Inr 0"
    by code_simp
  from zero_union_area_fails_candidate
         [OF t t c p p s a, of ranking "''diag.ttf''" "[(''two.ttf'', ''two'')]"] p s a b
  show ?thesis
    by simp
qed

text \<open>
  A glyph whose three contour points lie on a diagonal: the bounding boxes are two units
  wide and high, the scaling succeeds, the union has area 0, and neither the letter nor
  \<^verbatim>\<open>match\<close> yields 0.
\<close>

theorem zero_union_area_counterexample:
  "ttfont2poly (lattice_library demo_fonts) (demo_fonts ''diag'') ''A'' = Inr (set diagonal) \<and>
   scale_poly2 (lattice_library demo_fonts) (set diagonal) (set diagonal) = Inr (set diagonal) \<and>
   area (lattice_library demo_fonts) (poly_union (set diagonal) (set diagonal)) = 0 \<and>
   letter_difference (lattice_library demo_fonts) (demo_fonts ''diag'') (demo_fonts ''diag'') ''A''
     \<noteq> Inr 0 \<and>
   match (lattice_library demo_fonts) [''A''] ''diag'' ''diag'' \<noteq> Inr 0"
  by code_simp

text \<open>
  Claim C6. For two regions, the second with non-zero width and height, the scale factors
  are \<open>sx = width(R1) / width(R2)\<close> and \<open>sy = height(R1) / height(R2)\<close>, taken from the
  bounding boxes, and the second region is mapped by \<open>(x, y) \<mapsto> (x * sx, y * sy)\<close>:
  scaling about the origin, with no translation and no centring.
\<close>

theorem scale_poly2_origin_anchored:
  assumes "bounds L R1 = (minx1, miny1, maxx1, maxy1)"
    and "bounds L R2 = (minx2, miny2, maxx2, maxy2)"
    and "maxx2 - minx2 \<noteq> 0" and "maxy2 - miny2 \<noteq> 0"
  shows "scale_poly2 L R1 R2 =
           Inr ((\<lambda>(x, y). (x * ((maxx1 - minx1) / (maxx2 - minx2)),
                           y * ((maxy1 - miny1) / (maxy2 - miny2)))) ` R2)"
  using assms by (simp add: scale_poly2_def getPolyFactor_def affinity_scale_origin)

theorem scale_poly2_origin_anchored_witness:
  "bounds (lattice_library demo_fonts) {(0, 0), (4, 6)} = (0, 0, 4, 6) \<and>
   bounds (lattice_library demo_fonts) {(1, 1), (3, 4)} = (1, 1, 3, 4) \<and>
   (3::real) - 1 \<noteq> 0 \<and> (4::real) - 1 \<noteq> 0 \<and>
   scale_poly2 (lattice_library demo_fonts) {(0, 0), (4, 6)} {(1, 1), (3, 4)} =
     Inr {(2, 2), (6, 8)}"
proof -
  have b1: "bounds (lattice_library demo_fonts) {(0, 0), (4, 6)} = (0, 0, 4, 6)"
    by (simp add: lattice_library_def lattice_bounds_def)
  have b2: "bounds (lattice_library demo_fonts) {(1, 1), (3, 4)} = (1, 1, 3, 4)"
    by (simp add: lattice_library_def lattice_bounds_def)
  have n: "(3::real) - 1 \<noteq> 0" "(4::real) - 1 \<noteq> 0"
    by simp_all
  from scale_poly2_origin_anchored [OF b1 b2 n] b1 b2 show ?thesis
    by simp
qed

text \<open>
  Claim C7, as the program has it. When the bounding box of the candidate's region has
  width 0 or height 0, the computation of the scale factors fails and the letter gets no
  score: \<^verbatim>\<open>x1/x2\<close> or \<^verbatim>\<open>y1/y2\<close> raises Python's \<^verbatim>\<open>ZeroDivisionError\<close>.
  \<^verbatim>\<open>match\<close> then returns no number for the candidate (the error that leaves it is this
  \<^verbatim>\<open>ZeroDivisionError\<close> when every earlier letter got its term), the branch for two
  local fonts prints its error message, and the catalogue loop goes on to the next font
  with the scoreboard as it was. The program has no error type for degenerate regions.
\<close>

theorem degenerate_candidate_fails:
  assumes "TTFont L location1 = Inr font1" and "TTFont L location2 = Inr font2"
    and "check_chars = before @ i # after"
    and "ttfont2poly L font1 i = Inr poly1" and "ttfont2poly L font2 i = Inr poly2"
    and "fst (getPolyFactor L poly2) = 0 \<or> snd (getPolyFactor L poly2) = 0"
  shows "scale_poly2 L poly1 poly2 = Inl ZeroDivisionError \<and>
         letter_difference L font1 font2 i = Inl ZeroDivisionError \<and>
         (\<exists>e. match L check_chars location1 location2 = Inl e) \<and>
         ((\<forall>c\<in>set before. \<exists>d. letter_difference L font1 font2 c = Inr d) \<longrightarrow>
            match L check_chars location1 location2 = Inl ZeroDivisionError) \<and>
         main_local L check_chars location1 location2 = Something_went_wrong \<and>
         main_loop L check_chars location1 board ((font_URL, location2) # rest) =
           main_loop L check_chars location1 board rest"
proof -
  obtain x2 y2 where f: "getPolyFactor L poly2 = (x2, y2)"
    by (cases "getPolyFactor L poly2")
  have s: "scale_poly2 L poly1 poly2 = Inl ZeroDivisionError"
    using assms(6) by (auto simp: scale_poly2_def f split: prod.splits)
  then have l: "letter_difference L font1 font2 i = Inl ZeroDivisionError"
    using assms(4,5) by (simp add: letter_difference_def poly_difference_def)
  from s l failing_letter_fails_candidate [OF assms(1-3) l] show ?thesis
    by blast
qed

theorem degenerate_candidate_fails_witness:
  "ttfont2poly (lattice_library demo_fonts) (demo_fonts ''one'') ''A'' = Inr (set wide_box) \<and>
   ttfont2poly (lattice_library demo_fonts) (demo_fonts ''thin'') ''A'' = Inr (set upright) \<and>
   (fst (getPolyFactor (lattice_library demo_fonts) (set upright)) = 0 \<or>
    snd (getPolyFactor (lattice_library demo_fonts) (set upright)) = 0) \<and>
   scale_poly2 (lattice_library demo_fonts) (set wide_box) (set upright) =
     Inl ZeroDivisionError \<and>
   letter_difference (lattice_library demo_fonts) (demo_fonts ''one'') (demo_fonts ''thin'') ''A'' =
     Inl ZeroDivisionError \<and>
   match (lattice_library demo_fonts) [''A''] ''one'' ''thin'' = Inl ZeroDivisionError \<and>
   main_local (lattice_library demo_fonts) [''A''] ''one'' ''thin'' = Something_went_wrong \<and>
   main_loop (lattice_library demo_fonts) [''A''] ''one'' ranking
     [(''thin.ttf'', ''thin''), (''two.ttf'', ''two'')] =
   main_loop (lattice_library demo_fonts) [''A''] ''one'' ranking [(''two.ttf'', ''two'')]"
proof -
  have t1: "TTFont (lattice_library demo_fonts) ''one'' = Inr (demo_fonts ''one'')"
    by (simp add: lattice_library_def)
  have t2: "TTFont (lattice_library demo_fonts) ''thin'' = Inr (demo_fonts ''thin'')"
    by (simp add: lattice_library_def)
  have c: "[''A''] = [] @ ''A'' # []"
    by simp
  have p1: "ttfont2poly (lattice_library demo_fonts) (demo_fonts ''one'') ''A'' =
              Inr (set wide_box)"
    by (simp add: ttfont2poly_def lattice_library_def demo_fonts_def poly_union_def)
  have p2: "ttfont2poly (lattice_library demo_fonts) (demo_fonts ''thin'') ''A'' =
              Inr (set upright)"
    by (simp add: ttfont2poly_def lattice_library_def demo_fonts_def poly_union_def)
  have z: "fst (getPolyFactor (lattice_library demo_fonts) (set upright)) = 0 \<or>
           snd (getPolyFactor (lattice_library demo_fonts) (set upright)) = 0"
    by (simp add: getPolyFactor_def lattice_library_def lattice_bounds_def upright_def)
  from degenerate_candidate_fails
         [OF t1 t2 c p1 p2 z, of ranking "''thin.ttf''" "[(''two.ttf'', ''two'')]"] p1 p2 z
  show ?thesis
    by simp
qed

text \<open>
  The error of a degenerate candidate does not tell it apart. The candidate whose region
  has width 0 fails with \<^verbatim>\<open>ZeroDivisionError\<close>; so does a candidate whose region is two
  units wide and high but has area 0, at the later division by the area of the union; and
  so does \<^verbatim>\<open>match\<close> on an empty list of letters, at \<^verbatim>\<open>total/count\<close>.
\<close>

theorem degenerate_error_not_typed_counterexample:
  "fst (getPolyFactor (lattice_library demo_fonts) (set upright)) = 0 \<and>
   letter_difference (lattice_library demo_fonts) (demo_fonts ''one'') (demo_fonts ''thin'') ''A'' =
     Inl ZeroDivisionError \<and>
   getPolyFactor (lattice_library demo_fonts) (set diagonal) = (2, 2) \<and>
   ttfont2poly (lattice_library demo_fonts) (demo_fonts ''diag'') ''A'' = Inr (set diagonal) \<and>
   letter_difference (lattice_library demo_fonts) (demo_fonts ''diag'') (demo_fonts ''diag'') ''A'' =
     Inl ZeroDivisionError \<and>
   match (lattice_library demo_fonts) [] ''one'' ''two'' = Inl ZeroDivisionError"
  by code_simp

text \<open>
  Claim C8, at two fonts whose only compared letter differs by one half. The mean of the
  per-letter terms is 1/2. The catalogue branch stores \<^verbatim>\<open>score*100\<close>, which is 50, in
  the scoreboard; the branch for two local fonts prints the value of \<^verbatim>\<open>match\<close> itself
  in front of the percent sign, which is 1/2.
\<close>

theorem main_local_prints_fraction:
  "match (lattice_library demo_fonts) [''A''] ''one'' ''two'' = Inr (1 / 2) \<and>
   main_local (lattice_library demo_fonts) [''A''] ''one'' ''two'' = Difference (1 / 2) \<and>
   main_loop (lattice_library demo_fonts) [''A''] ''one'' ranking [(''two.ttf'', ''two'')] =
     [(50, ''two.ttf''), (100, ''''), (100, ''''), (100, ''''), (100, '''')]"
  by code_simp

text \<open>
  Claim C9, as the program has it. For a region whose bounding box has non-zero width and
  height and whose area is not 0, comparing the region with itself gives the scale factors
  1 and 1, leaves the region as it is, and yields the difference 0. (For a region of area
  0 the division by the area of the union raises instead.)
\<close>

theorem poly_difference_self:
  assumes "fst (getPolyFactor L R) \<noteq> 0" and "snd (getPolyFactor L R) \<noteq> 0"
    and "area L R \<noteq> 0"
  shows "scale_poly2 L R R = Inr R \<and> poly_difference L R R = Inr 0"
proof -
  obtain x y where f: "getPolyFactor L R = (x, y)"
    by (cases "getPolyFactor L R")
  have s: "scale_poly2 L R R = Inr R"
    using assms(1,2) by (simp add: scale_poly2_def f affinity_scale_identity)
  have "difference L R R = Inr 0"
    using assms(3) by (simp add: difference_def poly_union_def poly_intersection_def)
  with s show ?thesis
    by (simp add: poly_difference_def)
qed

theorem poly_difference_self_witness:
  "fst (getPolyFactor (lattice_library demo_fonts) (set wide_box)) \<noteq> 0 \<and>
   snd (getPolyFactor (lattice_library demo_fonts) (set wide_box)) \<noteq> 0 \<and>
   area (lattice_library demo_fonts) (set wide_box) \<noteq> 0 \<and>
   scale_poly2 (lattice_library demo_fonts) (set wide_box) (set wide_box) = Inr (set wide_box) \<and>
   poly_difference (lattice_library demo_fonts) (set wide_box) (set wide_box) = Inr 0"
proof -
  have x: "fst (getPolyFactor (lattice_library demo_fonts) (set wide_box)) \<noteq> 0"
    by code_simp
  have y: "snd (getPolyFactor (lattice_library demo_fonts) (set wide_box)) \<noteq> 0"
    by code_simp
  have a: "area (lattice_library demo_fonts) (set wide_box) \<noteq> 0"
    by code_simp
  from poly_difference_self [OF x y a] x y a show ?thesis
    by simp
qed

text \<open>
  Three points on a diagonal: the bounding box is two units wide and high on both sides,
  so the scale factors are 1, but the region has area 0 and no score comes out.
\<close>

theorem poly_difference_self_counterexample:
  "getPolyFactor (lattice_library demo_fonts) (set diagonal) = (2, 2) \<and>
   poly_difference (lattice_library demo_fonts) (set diagonal) (set diagonal) \<noteq> Inr 0"
  by code_simp

text \<open>
  Claim C10. For the empty list of letters the loop of \<^verbatim>\<open>match\<close> leaves \<open>total\<close> and
  \<open>count\<close> at 0, the division \<^verbatim>\<open>total/count\<close> raises \<^verbatim>\<open>ZeroDivisionError\<close> once
  both fonts are loaded, and in no case does \<^verbatim>\<open>match\<close> return a number.
\<close>

theorem match_no_letters_raises:
  "match_loop L font1 font2 [] (0, 0) = Inr (0, 0) \<and>
   (TTFont L location1 = Inr font1 \<and> TTFont L location2 = Inr font2 \<longrightarrow>
      match L [] location1 location2 = Inl ZeroDivisionError) \<and>
   (\<forall>v. match L [] location1 location2 \<noteq> Inr v)"
  by (auto simp: match_def split: sum.splits)

theorem match_no_letters_raises_witness:
  "TTFont (lattice_library demo_fonts) ''one'' = Inr (demo_fonts ''one'') \<and>
   TTFont (lattice_library demo_fonts) ''two'' = Inr (demo_fonts ''two'') \<and>
   match (lattice_library demo_fonts) [] ''one'' ''two'' = Inl ZeroDivisionError"
  using match_no_letters_raises
    [of "lattice_library demo_fonts" "demo_fonts ''one''" "demo_fonts ''two''" "''one''" "''two''"]
  by (simp add: lattice_library_def)

end
